theory Spec2Isabelle
  imports Main "HOL-Library.AList"
begin

section \<open>The CSV importer of \<^verbatim>\<open>src/components/CSVUploader.tsx\<close>\<close>

text \<open>
  The importer is a React component. Its logic lives in four closures: \<^verbatim>\<open>generateId\<close>,
  \<^verbatim>\<open>isRowEmpty\<close>, \<^verbatim>\<open>convertToRecord\<close> and \<^verbatim>\<open>processCSV\<close>. They are embedded below as
  HOL functions over the text of the uploaded file.

  Scope of the embedding. A JavaScript string is a sequence of UTF-16 code units. A value
  of type \<^typ>\<open>string\<close> stands for the JavaScript string whose code units are the codes
  of its characters, so the texts covered are those whose code units are all below 256 (the
  characters U+0000 to U+00FF). On these texts \<^verbatim>\<open>trim\<close>, \<^verbatim>\<open>split\<close>,
  \<^verbatim>\<open>toLowerCase\<close>, \<^verbatim>\<open>parseInt\<close> and \<^verbatim>\<open>JSON.parse\<close> stay below 256 and are
  embedded as functions on \<^typ>\<open>string\<close>. \<^verbatim>\<open>toUpperCase\<close> does not stay below 256
  (it sends U+00FF to U+0178 and U+00B5 to U+039C), so its result is given as the list of
  its code units, a \<^typ>\<open>nat list\<close>.
  A JavaScript number is an IEEE double; the only arithmetic of the importer is
  \<^verbatim>\<open>lastNumber + 1\<close> on the result of \<^verbatim>\<open>parseInt\<close>, embedded on \<^typ>\<open>int\<close>, which is
  what the double computes for every suffix below \<open>2 ^ 53\<close>.
\<close>

subsection \<open>String primitives\<close>

text \<open>
  The white space and line terminators of ECMAScript among the characters below 256: TAB,
  LF, VT, FF, CR, SPACE and the no-break space U+00A0. These are what \<^verbatim>\<open>trim\<close> strips
  and what \<^verbatim>\<open>parseInt\<close> skips.
\<close>

definition isWhiteSpace :: "char \<Rightarrow> bool" where
  "isWhiteSpace c \<longleftrightarrow>
     c = CHR 0x09 \<or> c = CHR 0x0A \<or> c = CHR 0x0B \<or> c = CHR 0x0C \<or> c = CHR 0x0D \<or>
     c = CHR 0x20 \<or> c = CHR 0xA0"

text \<open>\<^verbatim>\<open>s.trim()\<close>\<close>

definition trim :: "string \<Rightarrow> string" where
  "trim s = rev (dropWhile isWhiteSpace (rev (dropWhile isWhiteSpace s)))"

text \<open>
  \<^verbatim>\<open>s.split(c)\<close> for a one-character separator: the pieces between the separators, in
  order; there is always at least one piece (\<^verbatim>\<open>''.split(',')\<close> is \<^verbatim>\<open>['']\<close>). The
  second argument collects the piece being read, reversed.
\<close>

fun split_from :: "char \<Rightarrow> string \<Rightarrow> string \<Rightarrow> string list" where
  "split_from sep acc [] = [rev acc]"
| "split_from sep acc (c # cs) =
     (if c = sep then rev acc # split_from sep [] cs else split_from sep (c # acc) cs)"

definition split :: "char \<Rightarrow> string \<Rightarrow> string list" where
  "split sep s = split_from sep [] s"

text \<open>
  \<^verbatim>\<open>s.toLowerCase()\<close>, by the Unicode case mapping of the characters below 256: the
  letters A to Z, and U+00C0 to U+00DE but for the multiplication sign U+00D7, move up by 32;
  every other character stays.
\<close>

definition toLowerChar :: "char \<Rightarrow> char" where
  "toLowerChar c =
     (let n = (of_char c :: nat) in
      if (65 \<le> n \<and> n \<le> 90) \<or> (192 \<le> n \<and> n \<le> 222 \<and> n \<noteq> 215)
      then char_of (n + 32) else c)"

definition toLowerCase :: "string \<Rightarrow> string" where
  "toLowerCase s = map toLowerChar s"

text \<open>
  \<^verbatim>\<open>s.toUpperCase()\<close>, as code units, by the Unicode case mapping of the characters
  below 256: the letters a to z, and U+00E0 to U+00FE but for the division sign U+00F7,
  move down by 32; the sharp s U+00DF becomes the two letters SS; the micro sign U+00B5
  becomes U+039C and U+00FF becomes U+0178; every other character stays.
\<close>

definition toUpperUnits :: "char \<Rightarrow> nat list" where
  "toUpperUnits c =
     (let n = (of_char c :: nat) in
      if 97 \<le> n \<and> n \<le> 122 then [n - 32]
      else if n = 181 then [924]
      else if n = 223 then [83, 83]
      else if 224 \<le> n \<and> n \<le> 254 \<and> n \<noteq> 247 then [n - 32]
      else if n = 255 then [376]
      else [n])"

definition toUpperCase :: "string \<Rightarrow> nat list" where
  "toUpperCase s = concat (map toUpperUnits s)"

text \<open>The code units of a string literal of the source.\<close>

definition units :: "string \<Rightarrow> nat list" where
  "units s = map of_char s"

text \<open>
  \<^verbatim>\<open>parseInt(s)\<close> with no radix: leading white space is dropped, then an optional sign,
  then an optional \<^verbatim>\<open>0x\<close> or \<^verbatim>\<open>0X\<close> (which selects radix 16), then the longest run of
  digits of the radix. No digit at all gives \<^verbatim>\<open>NaN\<close>, which is \<open>None\<close> here.
\<close>

definition digitValue :: "char \<Rightarrow> nat option" where
  "digitValue c =
     (let n = (of_char c :: nat) in
      if 48 \<le> n \<and> n \<le> 57 then Some (n - 48)
      else if 97 \<le> n \<and> n \<le> 122 then Some (n - 87)
      else if 65 \<le> n \<and> n \<le> 90 then Some (n - 55)
      else None)"

definition isDigitOf :: "nat \<Rightarrow> char \<Rightarrow> bool" where
  "isDigitOf radix c = (case digitValue c of None \<Rightarrow> False | Some d \<Rightarrow> d < radix)"

definition digitsValue :: "nat \<Rightarrow> string \<Rightarrow> nat" where
  "digitsValue radix ds = foldl (\<lambda>n c. n * radix + (case digitValue c of None \<Rightarrow> 0 | Some d \<Rightarrow> d)) 0 ds"

definition parseInt :: "string \<Rightarrow> int option" where
  "parseInt s =
     (let s1 = dropWhile isWhiteSpace s;
          (sign, s2) = (case s1 of
                          c # r \<Rightarrow> if c = CHR ''-'' then (- 1 :: int, r)
                                   else if c = CHR ''+'' then (1, r) else (1, s1)
                        | [] \<Rightarrow> (1, s1));
          (radix, s3) = (case s2 of
                           z # x # r \<Rightarrow> if z = CHR ''0'' \<and> (x = CHR ''x'' \<or> x = CHR ''X'')
                                        then (16 :: nat, r) else (10, s2)
                         | _ \<Rightarrow> (10, s2));
          ds = takeWhile (isDigitOf radix) s3
      in if ds = [] then None else Some (sign * int (digitsValue radix ds)))"

text \<open>\<^verbatim>\<open>String(n)\<close> for a number that is an integer or \<^verbatim>\<open>NaN\<close>.\<close>

fun decimal :: "nat \<Rightarrow> string" where
  "decimal n = (if n < 10 then [char_of (48 + n)] else decimal (n div 10) @ [char_of (48 + n mod 10)])"

declare decimal.simps [simp del]

definition String :: "int option \<Rightarrow> string" where
  "String x =
     (case x of
        None \<Rightarrow> ''NaN''
      | Some n \<Rightarrow> if n < 0 then CHR ''-'' # decimal (nat (- n)) else decimal (nat n))"

text \<open>\<^verbatim>\<open>s.padStart(n, c)\<close> for a one-character filler.\<close>

definition padStart :: "nat \<Rightarrow> char \<Rightarrow> string \<Rightarrow> string" where
  "padStart n c s = replicate (n - length s) c @ s"

subsection \<open>\<^verbatim>\<open>JSON.parse\<close>\<close>

text \<open>
  \<^verbatim>\<open>JSON.parse\<close> is a built-in of the platform. It is embedded as a lexer over the
  characters followed by a parser over the tokens, both by structural recursion, after the
  JSON grammar of ECMA-404: the white space between tokens is TAB, LF, CR and SPACE; a string
  holds no control character, and a backslash in it is followed by a quote, a backslash, a
  slash, one of the letters b, f, n, r, t, or the letter u and four hexadecimal digits; a
  number is an optional minus sign, then 0 or a run of digits that does not start with 0,
  then an optional fraction (a point and digits) and an optional exponent (e or E, an
  optional sign, digits). The value returned keeps a string as the text between its quotes
  and a number as its literal; \<open>None\<close> stands for the \<^verbatim>\<open>SyntaxError\<close> that
  \<^verbatim>\<open>JSON.parse\<close> throws.
\<close>

datatype json =
  JNull
| JBool bool
| JNumber string
| JString string
| JArray "json list"
| JObject "(string \<times> json) list"

datatype token =
  TLBracket | TRBracket | TLBrace | TRBrace | TColon | TComma
| TString string | TNumber string | TAtom json

datatype lex_mode =
  Between
| InString string
| InEscape string
| InUnicode nat string
| InNumber string
| InWord string json

definition isJsonSpace :: "char \<Rightarrow> bool" where
  "isJsonSpace c \<longleftrightarrow> c = CHR 0x09 \<or> c = CHR 0x0A \<or> c = CHR 0x0D \<or> c = CHR 0x20"

definition isDecimalDigit :: "char \<Rightarrow> bool" where
  "isDecimalDigit c \<longleftrightarrow> (48::nat) \<le> of_char c \<and> of_char c \<le> (57::nat)"

definition isNumberChar :: "char \<Rightarrow> bool" where
  "isNumberChar c \<longleftrightarrow>
     isDecimalDigit c \<or> c = CHR ''-'' \<or> c = CHR ''+'' \<or> c = CHR ''.'' \<or> c = CHR ''e'' \<or> c = CHR ''E''"

definition numberExponent :: "string \<Rightarrow> bool" where
  "numberExponent s =
     (case s of
        [] \<Rightarrow> True
      | e # r \<Rightarrow>
          (e = CHR ''e'' \<or> e = CHR ''E'') \<and>
          (let ds = (case r of
                       [] \<Rightarrow> []
                     | g # t \<Rightarrow> if g = CHR ''+'' \<or> g = CHR ''-'' then t else r)
           in ds \<noteq> [] \<and> list_all isDecimalDigit ds))"

definition numberFraction :: "string \<Rightarrow> bool" where
  "numberFraction s =
     (case s of
        [] \<Rightarrow> True
      | p # r \<Rightarrow>
          if p = CHR ''.''
          then takeWhile isDecimalDigit r \<noteq> [] \<and> numberExponent (dropWhile isDecimalDigit r)
          else numberExponent s)"

definition numberInteger :: "string \<Rightarrow> bool" where
  "numberInteger s =
     (case s of
        [] \<Rightarrow> False
      | d # r \<Rightarrow>
          if d = CHR ''0'' then numberFraction r
          else isDecimalDigit d \<and> numberFraction (dropWhile isDecimalDigit r))"

definition isJsonNumber :: "string \<Rightarrow> bool" where
  "isJsonNumber s =
     (case s of
        [] \<Rightarrow> False
      | m # r \<Rightarrow> if m = CHR ''-'' then numberInteger r else numberInteger s)"

text \<open>
  The lexer reads one character per step: \<open>lexStep\<close> gives the next mode and the tokens
  that the character ends. A number is read as the longest run of number characters and
  checked against the grammar when the run ends: a character of a number that follows a
  complete number is a syntax error in every JSON text, since only white space, a comma or
  a closing bracket may follow a value.
\<close>

definition lexBetween :: "char \<Rightarrow> (lex_mode \<times> token list) option" where
  "lexBetween c =
     (if isJsonSpace c then Some (Between, [])
      else if c = CHR ''['' then Some (Between, [TLBracket])
      else if c = CHR '']'' then Some (Between, [TRBracket])
      else if c = CHR ''{'' then Some (Between, [TLBrace])
      else if c = CHR ''}'' then Some (Between, [TRBrace])
      else if c = CHR '':'' then Some (Between, [TColon])
      else if c = CHR '','' then Some (Between, [TComma])
      else if c = CHR 0x22 then Some (InString [], [])
      else if c = CHR ''-'' \<or> isDecimalDigit c then Some (InNumber [c], [])
      else if c = CHR ''t'' then Some (InWord ''rue'' (JBool True), [])
      else if c = CHR ''f'' then Some (InWord ''alse'' (JBool False), [])
      else if c = CHR ''n'' then Some (InWord ''ull'' JNull, [])
      else None)"

definition lexString :: "string \<Rightarrow> char \<Rightarrow> (lex_mode \<times> token list) option" where
  "lexString acc c =
     (if c = CHR 0x22 then Some (Between, [TString (rev acc)])
      else if c = CHR 0x5C then Some (InEscape (c # acc), [])
      else if (of_char c :: nat) < 32 then None
      else Some (InString (c # acc), []))"

definition lexEscape :: "string \<Rightarrow> char \<Rightarrow> (lex_mode \<times> token list) option" where
  "lexEscape acc c =
     (if c \<in> set [CHR 0x22, CHR 0x5C, CHR ''/'', CHR ''b'', CHR ''f'', CHR ''n'', CHR ''r'', CHR ''t'']
      then Some (InString (c # acc), [])
      else if c = CHR ''u'' then Some (InUnicode 4 (c # acc), [])
      else None)"

definition lexUnicode :: "nat \<Rightarrow> string \<Rightarrow> char \<Rightarrow> (lex_mode \<times> token list) option" where
  "lexUnicode n acc c =
     (if isDigitOf 16 c
      then (if n \<le> 1 then Some (InString (c # acc), []) else Some (InUnicode (n - 1) (c # acc), []))
      else None)"

definition lexNumber :: "string \<Rightarrow> char \<Rightarrow> (lex_mode \<times> token list) option" where
  "lexNumber acc c =
     (if isNumberChar c then Some (InNumber (c # acc), [])
      else if isJsonNumber (rev acc)
      then map_option (\<lambda>(m, ts). (m, TNumber (rev acc) # ts)) (lexBetween c)
      else None)"

definition lexWord :: "string \<Rightarrow> json \<Rightarrow> char \<Rightarrow> (lex_mode \<times> token list) option" where
  "lexWord w v c =
     (case w of
        [] \<Rightarrow> None
      | e # es \<Rightarrow>
          if c \<noteq> e then None
          else if es = [] then Some (Between, [TAtom v])
          else Some (InWord es v, []))"

fun lexStep :: "lex_mode \<Rightarrow> char \<Rightarrow> (lex_mode \<times> token list) option" where
  "lexStep Between c = lexBetween c"
| "lexStep (InString acc) c = lexString acc c"
| "lexStep (InEscape acc) c = lexEscape acc c"
| "lexStep (InUnicode n acc) c = lexUnicode n acc c"
| "lexStep (InNumber acc) c = lexNumber acc c"
| "lexStep (InWord w v) c = lexWord w v c"

text \<open>At the end of the text only a finished token or a number may be pending.\<close>

fun lexEnd :: "lex_mode \<Rightarrow> token list option" where
  "lexEnd Between = Some []"
| "lexEnd (InNumber acc) = (if isJsonNumber (rev acc) then Some [TNumber (rev acc)] else None)"
| "lexEnd (InString acc) = None"
| "lexEnd (InEscape acc) = None"
| "lexEnd (InUnicode n acc) = None"
| "lexEnd (InWord w v) = None"

fun lex :: "lex_mode \<Rightarrow> string \<Rightarrow> token list option" where
  "lex m [] = lexEnd m"
| "lex m (c # cs) =
     (case lexStep m c of
        None \<Rightarrow> None
      | Some (m', ts) \<Rightarrow> map_option ((@) ts) (lex m' cs))"

text \<open>
  The parser keeps the open arrays and objects on a stack, innermost first, and what the
  grammar allows next.
\<close>

datatype frame =
  InArray "json list"
| InObject "(string \<times> json) list"
| InMember "(string \<times> json) list" string

datatype expect =
  Value | ValueOrClose | KeyOrClose | Key | Colon | CommaOrClose | End json

fun complete :: "json \<Rightarrow> frame list \<Rightarrow> (expect \<times> frame list) option" where
  "complete v [] = Some (End v, [])"
| "complete v (InArray vs # st) = Some (CommaOrClose, InArray (vs @ [v]) # st)"
| "complete v (InMember ms k # st) = Some (CommaOrClose, InObject (ms @ [(k, v)]) # st)"
| "complete v (InObject ms # st) = None"

definition closeArray :: "frame list \<Rightarrow> (expect \<times> frame list) option" where
  "closeArray st = (case st of InArray vs # st' \<Rightarrow> complete (JArray vs) st' | _ \<Rightarrow> None)"

definition closeObject :: "frame list \<Rightarrow> (expect \<times> frame list) option" where
  "closeObject st = (case st of InObject ms # st' \<Rightarrow> complete (JObject ms) st' | _ \<Rightarrow> None)"

definition startValue :: "token \<Rightarrow> frame list \<Rightarrow> (expect \<times> frame list) option" where
  "startValue t st =
     (case t of
        TLBracket \<Rightarrow> Some (ValueOrClose, InArray [] # st)
      | TLBrace \<Rightarrow> Some (KeyOrClose, InObject [] # st)
      | TString s \<Rightarrow> complete (JString s) st
      | TNumber s \<Rightarrow> complete (JNumber s) st
      | TAtom v \<Rightarrow> complete v st
      | _ \<Rightarrow> None)"

definition startKey :: "token \<Rightarrow> frame list \<Rightarrow> (expect \<times> frame list) option" where
  "startKey t st =
     (case (t, st) of
        (TString k, InObject ms # st') \<Rightarrow> Some (Colon, InMember ms k # st')
      | _ \<Rightarrow> None)"

fun parseStep :: "expect \<Rightarrow> frame list \<Rightarrow> token \<Rightarrow> (expect \<times> frame list) option" where
  "parseStep Value st t = startValue t st"
| "parseStep ValueOrClose st t = (if t = TRBracket then closeArray st else startValue t st)"
| "parseStep KeyOrClose st t = (if t = TRBrace then closeObject st else startKey t st)"
| "parseStep Key st t = startKey t st"
| "parseStep Colon st t = (if t = TColon then Some (Value, st) else None)"
| "parseStep CommaOrClose st t =
     (if t = TComma
      then (case st of
              InArray vs # st' \<Rightarrow> Some (Value, st)
            | InObject ms # st' \<Rightarrow> Some (Key, st)
            | _ \<Rightarrow> None)
      else if t = TRBracket then closeArray st
      else if t = TRBrace then closeObject st
      else None)"
| "parseStep (End v) st t = None"

fun parseTokens :: "expect \<Rightarrow> frame list \<Rightarrow> token list \<Rightarrow> json option" where
  "parseTokens e st [] = (case e of End v \<Rightarrow> Some v | _ \<Rightarrow> None)"
| "parseTokens e st (t # ts) =
     (case parseStep e st t of
        None \<Rightarrow> None
      | Some (e', st') \<Rightarrow> parseTokens e' st' ts)"

definition JSON_parse :: "string \<Rightarrow> json option" where
  "JSON_parse s = (case lex Between s of None \<Rightarrow> None | Some ts \<Rightarrow> parseTokens Value [] ts)"

subsection \<open>Records and the row object\<close>

text \<open>
  The type \<^verbatim>\<open>Record\<close> of \<^verbatim>\<open>../types\<close>, with the fields that \<^verbatim>\<open>convertToRecord\<close>
  fills, in its order. The field \<^verbatim>\<open>id\<close> is \<open>record_id\<close> here. \<^verbatim>\<open>images\<close> holds whatever
  \<^verbatim>\<open>JSON.parse\<close> returned; \<^verbatim>\<open>verificationStatus\<close> is created as the empty object.
  The elements of \<^verbatim>\<open>category\<close>, \<^verbatim>\<open>tags\<close> and \<^verbatim>\<open>language\<close> are results of
  \<^verbatim>\<open>toUpperCase\<close> and so are given by their code units.
\<close>

record social_media =
  twitter :: string
  linkedin :: string

record company_record =
  record_id :: string
  status :: string
  level :: string
  lastAccessed :: string
  subject :: string
  details :: string
  requiredClearance :: string
  name :: string
  address :: string
  zipCode :: string
  city :: string
  country :: string
  logo :: string
  images :: json
  category :: "nat list list"
  tags :: "nat list list"
  socialMedia :: social_media
  description :: string
  sourceFound :: string
  ceo :: string
  language :: "nat list list"
  taxId :: string
  verificationStatus :: "(string \<times> string) list"

text \<open>
  What the importer reads from outside: \<^verbatim>\<open>getAllRecords()\<close> of
  \<^verbatim>\<open>../utils/recordManager\<close> (the known records, in the order of the store; the importer
  never writes to the store, and the loop does not yield, so every call of one run returns
  the same list), the clock (\<open>now i\<close> is \<^verbatim>\<open>new Date().toISOString()\<close> while line \<open>i\<close> is
  converted), and the message that the engine gives the \<^verbatim>\<open>SyntaxError\<close> of
  \<^verbatim>\<open>JSON.parse\<close> on a text.
\<close>

record environment =
  getAllRecords :: "company_record list"
  now :: "nat \<Rightarrow> string"
  syntaxErrorMessage :: "string \<Rightarrow> string"

text \<open>The exceptions raised inside \<^verbatim>\<open>processCSV\<close>, each with its \<^verbatim>\<open>message\<close>.\<close>

datatype exn = Error string | SyntaxError string | TypeError string

fun message :: "exn \<Rightarrow> string" where
  "message (Error m) = m"
| "message (SyntaxError m) = m"
| "message (TypeError m) = m"

text \<open>
  The object \<^verbatim>\<open>data\<close> of a row: the own properties in insertion order. Assigning to a
  key that is already there replaces the value in place. Assigning a string to
  \<^verbatim>\<open>__proto__\<close> goes to the setter of \<^verbatim>\<open>Object.prototype\<close>, which ignores it, so no own
  property appears. None of the keys that \<^verbatim>\<open>convertToRecord\<close> reads is a property of
  \<^verbatim>\<open>Object.prototype\<close>: reading one that is not an own property gives \<^verbatim>\<open>undefined\<close>,
  which is \<open>None\<close>.
\<close>

type_synonym row = "(string \<times> string) list"

definition assign :: "string \<Rightarrow> string \<Rightarrow> row \<Rightarrow> row" where
  "assign key v data = (if key = ''__proto__'' then data else AList.update key v data)"

definition field :: "row \<Rightarrow> string \<Rightarrow> string option" where
  "field data key = map_of data key"

definition Object_values :: "row \<Rightarrow> string list" where
  "Object_values data = map snd data"

subsection \<open>\<^verbatim>\<open>generateId\<close>\<close>

text \<open>
  \<^verbatim>\<open>parseInt(lastId.split('-')[1])\<close>: the second piece is \<^verbatim>\<open>undefined\<close> when there
  is none, and \<^verbatim>\<open>parseInt\<close> reads \<^verbatim>\<open>undefined\<close> as the string of that name.
\<close>

definition lastNumberOf :: "string \<Rightarrow> int option" where
  "lastNumberOf lastId =
     parseInt (case split (CHR ''-'') lastId of
                 p0 # p1 # ps \<Rightarrow> p1
               | _ \<Rightarrow> ''undefined'')"

text \<open>
  \<^verbatim>\<open>records[records.length - 1]?.id || 'CORP-0000'\<close>: the id of the last record, or the
  default when there is no record or the id is the empty string.
\<close>

definition generateId :: "company_record list \<Rightarrow> string" where
  "generateId records =
     (let lastId = (if records = [] \<or> record_id (last records) = []
                    then ''CORP-0000'' else record_id (last records));
          lastNumber = lastNumberOf lastId
      in ''CORP-'' @ padStart 4 (CHR ''0'') (String (map_option (\<lambda>n. n + 1) lastNumber)))"

subsection \<open>\<^verbatim>\<open>isRowEmpty\<close> and \<^verbatim>\<open>convertToRecord\<close>\<close>

definition isRowEmpty :: "row \<Rightarrow> bool" where
  "isRowEmpty data = list_all (\<lambda>v. trim v = []) (Object_values data)"

text \<open>\<^verbatim>\<open>data.key?.trim() || dflt\<close>\<close>

definition trimmedOr :: "row \<Rightarrow> string \<Rightarrow> string \<Rightarrow> string" where
  "trimmedOr data key dflt =
     (case field data key of
        None \<Rightarrow> dflt
      | Some v \<Rightarrow> if trim v = [] then dflt else trim v)"

text \<open>\<^verbatim>\<open>data.key?.trim() ? data.key.split(',').map(c => c.trim().toUpperCase()) : dflt\<close>\<close>

definition listOr :: "row \<Rightarrow> string \<Rightarrow> nat list list \<Rightarrow> nat list list" where
  "listOr data key dflt =
     (case field data key of
        None \<Rightarrow> dflt
      | Some v \<Rightarrow> if trim v = [] then dflt
                  else map (\<lambda>c. toUpperCase (trim c)) (split (CHR '','') v))"

text \<open>\<^verbatim>\<open>data.images ? JSON.parse(data.images.trim() || '[]') : []\<close>\<close>

definition parseImages :: "environment \<Rightarrow> row \<Rightarrow> exn + json" where
  "parseImages env data =
     (case field data ''images'' of
        None \<Rightarrow> Inr (JArray [])
      | Some v \<Rightarrow>
          if v = [] then Inr (JArray [])
          else (let src = (if trim v = [] then ''[]'' else trim v)
                in case JSON_parse src of
                     None \<Rightarrow> Inl (SyntaxError (syntaxErrorMessage env src))
                   | Some j \<Rightarrow> Inr j))"

definition placeholderLogo :: string where
  "placeholderLogo =
     ''https://images.unsplash.com/photo-1516245834210-c4c142787335?auto=format&fit=crop&w=300''"

text \<open>
  \<open>convertToRecord env i data\<close> is the call for line \<open>i\<close>: \<open>Inr None\<close> is the \<^verbatim>\<open>null\<close>
  of a skipped row, \<open>Inl\<close> the exception of \<^verbatim>\<open>JSON.parse\<close>.
\<close>

definition convertToRecord :: "environment \<Rightarrow> nat \<Rightarrow> row \<Rightarrow> exn + company_record option" where
  "convertToRecord env i data =
     (if isRowEmpty data then Inr None
      else if trimmedOr data ''company_name'' [] = [] then Inr None
      else case parseImages env data of
             Inl e \<Rightarrow> Inl e
           | Inr imgs \<Rightarrow>
               Inr (Some \<lparr>
                 record_id = generateId (getAllRecords env),
                 status = ''ACTIVE'',
                 level = ''PUBLIC'',
                 lastAccessed = (case split (CHR ''T'') (now env i) of [] \<Rightarrow> [] | d # ps \<Rightarrow> d),
                 subject = trimmedOr data ''company_name'' [],
                 details = trimmedOr data ''description'' (trimmedOr data ''company_name'' []),
                 requiredClearance = ''PUBLIC'',
                 name = trimmedOr data ''company_name'' [],
                 address = trimmedOr data ''address'' [],
                 zipCode = trimmedOr data ''zipCode'' [],
                 city = trimmedOr data ''city'' [],
                 country = trimmedOr data ''country'' [],
                 logo = trimmedOr data ''logo'' placeholderLogo,
                 images = imgs,
                 category = listOr data ''category'' [],
                 tags = listOr data ''tags'' [],
                 socialMedia = \<lparr>twitter = trimmedOr data ''twitter'' [],
                                linkedin = trimmedOr data ''linkedin'' []\<rparr>,
                 description = trimmedOr data ''description'' [],
                 sourceFound = ''Company Website'',
                 ceo = trimmedOr data ''ceo'' [],
                 language = listOr data ''language'' [units ''ENGLISH''],
                 taxId = trimmedOr data ''taxId'' [],
                 verificationStatus = []\<rparr>))"

subsection \<open>\<^verbatim>\<open>processCSV\<close>\<close>

text \<open>The React state of the component that \<^verbatim>\<open>processCSV\<close> writes.\<close>

datatype upload_status = status_idle | status_processing | status_success | status_error

record uploader =
  uploadStatus :: upload_status
  errorMessage :: string
  processedRows :: nat
  skippedRows :: nat

text \<open>
  \<^verbatim>\<open>headers.forEach((header, index) => { data[header] = values[index] || '' })\<close>:
  a value that is missing or empty is the empty string.
\<close>

fun fillRow :: "string list \<Rightarrow> nat \<Rightarrow> string list \<Rightarrow> row \<Rightarrow> row" where
  "fillRow [] index values data = data"
| "fillRow (header # hs) index values data =
     fillRow hs (Suc index) values
       (assign header (if index < length values then values ! index else []) data)"

definition rowOf :: "string list \<Rightarrow> string \<Rightarrow> row" where
  "rowOf headers line = fillRow headers 0 (map trim (split (CHR '','') line)) []"

text \<open>
  The body of the loop for line \<open>i\<close>. The state is the local \<^verbatim>\<open>newRecords\<close> and the
  component; \<open>Inl\<close> is an exception that leaves the loop.
\<close>

definition processLine ::
  "environment \<Rightarrow> string list \<Rightarrow> nat \<Rightarrow> string \<Rightarrow> company_record list \<times> uploader
     \<Rightarrow> exn + company_record list \<times> uploader" where
  "processLine env headers i line st =
     (case st of (newRecords, u) \<Rightarrow>
        if trim line = [] then Inr (newRecords, u\<lparr>skippedRows := skippedRows u + 1\<rparr>)
        else case convertToRecord env i (rowOf headers line) of
               Inl e \<Rightarrow> Inl e
             | Inr None \<Rightarrow> Inr (newRecords, u\<lparr>skippedRows := skippedRows u + 1\<rparr>)
             | Inr (Some r) \<Rightarrow> Inr (newRecords @ [r], u\<lparr>processedRows := processedRows u + 1\<rparr>))"

text \<open>
  \<^verbatim>\<open>for (let i = 1; i < lines.length; i++)\<close> over the lines from \<open>i\<close> on. The result is
  the exception that ended the loop, if any, and the state at that moment.
\<close>

fun processLines ::
  "environment \<Rightarrow> string list \<Rightarrow> nat \<Rightarrow> string list \<Rightarrow> company_record list \<times> uploader
     \<Rightarrow> exn option \<times> company_record list \<times> uploader" where
  "processLines env headers i [] st = (None, st)"
| "processLines env headers i (line # rest) st =
     (case processLine env headers i line st of
        Inl e \<Rightarrow> (Some e, st)
      | Inr st' \<Rightarrow> processLines env headers (Suc i) rest st')"

definition formatErrorMessage :: string where
  \<open>formatErrorMessage = ''Invalid CSV format. Required column "company_name" is missing.''\<close>

text \<open>
  \<^verbatim>\<open>lines[0].toLowerCase().split(',').map(h => h.trim())\<close>
\<close>

definition headersOf :: "string \<Rightarrow> string list" where
  "headersOf line0 = map trim (split (CHR '','') (toLowerCase line0))"

text \<open>The \<^verbatim>\<open>catch\<close> block; every exception here is an \<^verbatim>\<open>instanceof Error\<close>.\<close>

definition catch :: "exn \<Rightarrow> uploader \<Rightarrow> uploader" where
  "catch e u = u\<lparr>uploadStatus := status_error, errorMessage := message e\<rparr>"

text \<open>
  \<open>processCSV env u text\<close> runs the import of a file whose content is \<open>text\<close>, from the
  component state \<open>u\<close>. It gives the component state at the end and what was passed to
  \<^verbatim>\<open>console.log\<close>: \<open>Some newRecords\<close> when the line is reached, \<open>None\<close> when an
  exception was caught before. The sounds and the closing timer are left out. \<^verbatim>\<open>split\<close>
  never returns the empty array, so the first case below, where \<^verbatim>\<open>lines[0]\<close> would be
  \<^verbatim>\<open>undefined\<close>, is never taken.
\<close>

definition processCSV ::
  "environment \<Rightarrow> uploader \<Rightarrow> string \<Rightarrow> uploader \<times> company_record list option" where
  "processCSV env u text =
     (let u0 = u\<lparr>uploadStatus := status_processing, processedRows := 0, skippedRows := 0\<rparr>
      in case split (CHR 0x0A) text of
           [] \<Rightarrow> (catch (TypeError ''lines[0] is undefined'') u0, None)
         | line0 # rest \<Rightarrow>
             if ''company_name'' \<notin> set (headersOf line0)
             then (catch (Error formatErrorMessage) u0, None)
             else (case processLines env (headersOf line0) 1 rest ([], u0) of
                     (Some e, (newRecords, u')) \<Rightarrow> (catch e u', None)
                   | (None, (newRecords, u')) \<Rightarrow>
                       (u'\<lparr>uploadStatus := status_success\<rparr>, Some newRecords)))"

subsection \<open>The initial state and sample inputs\<close>

text \<open>The state of a freshly mounted component, from its \<^verbatim>\<open>useState\<close> calls.\<close>

definition initialUploader :: uploader where
  "initialUploader =
     \<lparr>uploadStatus = status_idle, errorMessage = [], processedRows = 0, skippedRows = 0\<rparr>"

text \<open>
  A known record with a given id, and an environment over a given store, for the examples
  below. The importer reads nothing but the id of a known record.
\<close>

definition knownRecord :: "string \<Rightarrow> company_record" where
  "knownRecord i =
     \<lparr>record_id = i, status = ''ACTIVE'', level = ''PUBLIC'', lastAccessed = ''2024-01-02'',
      subject = ''Known'', details = ''Known'', requiredClearance = ''PUBLIC'', name = ''Known'',
      address = [], zipCode = [], city = [], country = [], logo = placeholderLogo,
      images = JArray [], category = [], tags = [],
      socialMedia = \<lparr>twitter = [], linkedin = []\<rparr>, description = [],
      sourceFound = ''Company Website'', ceo = [], language = [units ''ENGLISH''], taxId = [],
      verificationStatus = []\<rparr>"

definition sampleEnvironment :: "company_record list \<Rightarrow> environment" where
  "sampleEnvironment records =
     \<lparr>getAllRecords = records,
      now = (\<lambda>i. ''2024-01-02T03:04:05.678Z''),
      syntaxErrorMessage = (\<lambda>src. ''Unexpected token in JSON'')\<rparr>"

section \<open>Properties of the primitives\<close>

lemma split_from_not_Nil: "split_from sep acc s \<noteq> []"
  by (induction s arbitrary: acc) auto

lemma split_not_Nil: "split sep s \<noteq> []"
  by (simp add: split_def split_from_not_Nil)

lemma split_from_snoc: "split_from sep acc (s @ [sep]) = split_from sep acc s @ [[]]"
  by (induction s arbitrary: acc) auto

lemma split_snoc: "split sep (s @ [sep]) = split sep s @ [[]]"
  by (simp add: split_def split_from_snoc)

lemma split_from_chars: "p \<in> set (split_from sep acc s) \<Longrightarrow> set p \<subseteq> set acc \<union> set s"
proof (induction s arbitrary: acc)
  case Nil
  then show ?case by auto
next
  case (Cons c cs)
  show ?case
  proof (cases "c = sep")
    case True
    with Cons.prems have "p = rev acc \<or> p \<in> set (split_from sep [] cs)" by auto
    then show ?thesis using Cons.IH [of "[]"] by auto
  next
    case False
    with Cons.prems have "p \<in> set (split_from sep (c # acc) cs)" by simp
    then show ?thesis using Cons.IH [of "c # acc"] by auto
  qed
qed

lemma split_chars: "p \<in> set (split sep s) \<Longrightarrow> set p \<subseteq> set s"
  using split_from_chars [of p sep "[]" s] by (simp add: split_def)

lemma dropWhile_all: "(\<forall>x\<in>set (dropWhile P xs). P x) \<longleftrightarrow> (\<forall>x\<in>set xs. P x)"
  by (induction xs) auto

lemma trim_eq_Nil_iff: "trim s = [] \<longleftrightarrow> (\<forall>c\<in>set s. isWhiteSpace c)"
  by (simp add: trim_def dropWhile_eq_Nil_conv dropWhile_all)

lemma trim_Nil: "trim [] = []"
  by (simp add: trim_def)


lemma dropWhile_rev_keeps_hd:
  assumes "xs \<noteq> []" "\<not> P (hd xs)"
  shows "dropWhile P (rev (dropWhile P (rev xs))) = rev (dropWhile P (rev xs))"
proof -
  from assms obtain x ys where xs: "xs = x # ys" and nx: "\<not> P x" by (cases xs) auto
  have "dropWhile P (rev ys @ [x]) = dropWhile P (rev ys) @ [x]" 
    using nx by (simp add: dropWhile_append)
  then have "rev (dropWhile P (rev xs)) = x # rev (dropWhile P (rev ys))"
    by (simp add: xs)
  then show ?thesis using nx by simp
qed

lemma trim_trim: "trim (trim s) = trim s"
proof (cases "dropWhile isWhiteSpace s = []")
  case True
  then have "trim s = []" by (simp add: trim_eq_Nil_iff)
  then show ?thesis by (simp add: trim_Nil)
next
  case False
  define t where "t = dropWhile isWhiteSpace s"
  have t: "t \<noteq> []" "\<not> isWhiteSpace (hd t)"
    using False hd_dropWhile [of isWhiteSpace s] by (simp_all add: t_def)
  have "trim s = rev (dropWhile isWhiteSpace (rev t))" by (simp add: trim_def t_def)
  moreover have "dropWhile isWhiteSpace (rev (dropWhile isWhiteSpace (rev t))) = rev (dropWhile isWhiteSpace (rev t))"
    using t by (rule dropWhile_rev_keeps_hd)
  ultimately show ?thesis by (simp add: trim_def dropWhile_idem)
qed

text \<open>A piece of a line that is not blank: the line is not blank.\<close>
lemma piece_not_blank:
  assumes "p \<in> set (split sep line)" "trim p \<noteq> []"
  shows "trim line \<noteq> []"
  using assms split_chars [of p sep line] by (auto simp: trim_eq_Nil_iff)

lemma field_assign:
  "field (assign k v data) k' =
     (if k = ''__proto__'' then field data k' else if k' = k then Some v else field data k')"
  by (simp add: field_def assign_def update_conv')

lemma field_fillRow:
  "field (fillRow hs index vs data) k = Some v \<Longrightarrow>
     field data k = Some v \<or> (k \<in> set hs \<and> (v = [] \<or> v \<in> set vs))"
proof (induction hs arbitrary: index data)
  case Nil
  then show ?case by simp
next
  case (Cons h hs)
  from Cons.prems have
    "field (fillRow hs (Suc index) vs (assign h (if index < length vs then vs ! index else []) data)) k = Some v"
    by simp
  from Cons.IH [OF this] show ?case
    by (auto simp: field_assign split: if_splits)
qed

lemma field_rowOf:
  assumes "field (rowOf headers line) k = Some v"
  shows "k \<in> set headers" and "trim v = v" and "v \<noteq> [] \<Longrightarrow> trim line \<noteq> []"
proof -
  from assms field_fillRow [of headers 0 "map trim (split (CHR '','') line)" "[]" k v]
  have k: "k \<in> set headers" and v: "v = [] \<or> v \<in> set (map trim (split (CHR '','') line))"
    by (auto simp: rowOf_def field_def)
  show "k \<in> set headers" by (rule k)
  show "trim v = v" using v by (auto simp: trim_Nil trim_trim)
  show "trim line \<noteq> []" if "v \<noteq> []"
  proof -
    from v that obtain p where p: "p \<in> set (split (CHR '','') line)" and "v = trim p" by auto
    with that have "trim p \<noteq> []" by simp
    with p show ?thesis by (rule piece_not_blank)
  qed
qed

text \<open>The primitives on characters beyond ASCII.\<close>

lemma trim_no_break_space:
  "trim [CHR 0xA0] = [] \<and> trim (CHR 0xA0 # ''Acme'' @ [CHR 0xA0, CHR 0x20]) = ''Acme''"
  by code_simp

lemma toLowerCase_latin:
  "toLowerCase [CHR 0xC9, CHR 0xD7, CHR 0xDE, CHR ''Z''] = [CHR 0xE9, CHR 0xD7, CHR 0xFE, CHR ''z'']"
  by code_simp

lemma toUpperCase_latin:
  "toUpperCase (''caf'' @ [CHR 0xE9]) = [67, 65, 70, 201] \<and>
   toUpperCase [CHR 0xDF] = [83, 83] \<and>
   toUpperCase [CHR 0xB5] = [924] \<and>
   toUpperCase [CHR 0xF7] = [247] \<and>
   toUpperCase [CHR 0xFF] = [376]"
  by code_simp

section \<open>Properties of the conversion of a row\<close>

lemma field_in_values: "field data k = Some v \<Longrightarrow> v \<in> set (Object_values data)"
  unfolding field_def Object_values_def by (force dest: map_of_SomeD)

lemma isRowEmpty_field: "isRowEmpty data \<Longrightarrow> field data k = Some v \<Longrightarrow> trim v = []"
  using field_in_values [of data k v] by (auto simp: isRowEmpty_def list_all_iff)

lemma trimmedOr_eq_Nil_iff:
  "trimmedOr data k [] = [] \<longleftrightarrow> (case field data k of None \<Rightarrow> True | Some v \<Rightarrow> trim v = [])"
  by (simp add: trimmedOr_def split: option.splits)

lemma isRowEmpty_no_name: "isRowEmpty data \<Longrightarrow> trimmedOr data k [] = []"
  by (auto simp: trimmedOr_eq_Nil_iff dest: isRowEmpty_field split: option.splits)

lemma convertToRecord_null:
  "convertToRecord env i data = Inr None \<longleftrightarrow> trimmedOr data ''company_name'' [] = []"
  by (auto simp: convertToRecord_def isRowEmpty_no_name split: sum.splits)

lemma convertToRecord_throws:
  "convertToRecord env i data = Inl e \<longleftrightarrow>
     trimmedOr data ''company_name'' [] \<noteq> [] \<and> parseImages env data = Inl e"
  by (auto simp: convertToRecord_def isRowEmpty_no_name split: sum.splits)

lemma convertToRecord_fields:
  assumes "convertToRecord env i data = Inr (Some r)"
  shows "record_id r = generateId (getAllRecords env)"
    and "name r = trimmedOr data ''company_name'' []"
    and "subject r = trimmedOr data ''company_name'' []"
    and "details r = trimmedOr data ''description'' (trimmedOr data ''company_name'' [])"
    and "description r = trimmedOr data ''description'' []"
    and "category r = listOr data ''category'' []"
    and "tags r = listOr data ''tags'' []"
    and "language r = listOr data ''language'' [units ''ENGLISH'']"
    and "trimmedOr data ''company_name'' [] \<noteq> []"
  using assms by (auto simp: convertToRecord_def split: if_splits sum.splits)

lemma convertToRecord_record:
  assumes "trimmedOr data ''company_name'' [] \<noteq> []" and "parseImages env data = Inr j"
  shows "\<exists>r. convertToRecord env i data = Inr (Some r)"
  using assms by (auto simp: convertToRecord_def isRowEmpty_no_name)

lemma JSON_parse_empty_array: "JSON_parse ''[]'' = Some (JArray [])"
  by code_simp

lemma parseImages_Inl:
  "parseImages env data = Inl e \<Longrightarrow> \<exists>src. e = SyntaxError (syntaxErrorMessage env src) \<and> JSON_parse src = None"
  by (auto simp: parseImages_def Let_def split: option.splits if_splits)

lemma parseImages_row:
  assumes "field data ''images'' = Some c" "c \<noteq> []" "trim c = c"
  shows "parseImages env data =
     (case JSON_parse c of
        None \<Rightarrow> Inl (SyntaxError (syntaxErrorMessage env c))
      | Some j \<Rightarrow> Inr j)"
  using assms by (simp add: parseImages_def)





lemma listOr_Some:
  "field data k = Some v \<Longrightarrow> trim v \<noteq> [] \<Longrightarrow>
     listOr data k dflt = map (\<lambda>c. toUpperCase (trim c)) (split (CHR '','') v)"
  by (simp add: listOr_def)


lemma pad_eight: "padStart 4 (CHR ''0'') (String (Some 8)) = ''0008''"
  by code_simp

lemma lastNumberOf_Nil: "lastNumberOf [] = None"
  by code_simp

section \<open>Properties of the loop\<close>

lemma processLine_blank:
  "trim line = [] \<Longrightarrow>
     processLine env headers i line (recs, u) = Inr (recs, u\<lparr>skippedRows := skippedRows u + 1\<rparr>)"
  by (simp add: processLine_def)

lemma processLine_counts:
  assumes "processLine env headers i line (recs, u) = Inr (recs', u')"
  shows "(recs' = recs \<and> u' = u\<lparr>skippedRows := skippedRows u + 1\<rparr>) \<or>
         (\<exists>r. recs' = recs @ [r] \<and> u' = u\<lparr>processedRows := processedRows u + 1\<rparr>)"
  using assms by (auto simp: processLine_def split: if_splits sum.splits option.splits)

lemma processLine_Inl:
  assumes "processLine env headers i line st = Inl e"
  shows "\<exists>src. e = SyntaxError (syntaxErrorMessage env src) \<and> JSON_parse src = None"
proof -
  from assms have "convertToRecord env i (rowOf headers line) = Inl e"
    by (auto simp: processLine_def split: prod.splits if_splits sum.splits option.splits)
  then have "parseImages env (rowOf headers line) = Inl e"
    by (simp add: convertToRecord_throws)
  then show ?thesis by (rule parseImages_Inl)
qed

lemma processLines_exn:
  "processLines env headers i ls st = (Some e, st') \<Longrightarrow>
     \<exists>src. e = SyntaxError (syntaxErrorMessage env src) \<and> JSON_parse src = None"
proof (induction ls arbitrary: i st)
  case Nil
  then show ?case by simp
next
  case (Cons l ls)
  show ?case
  proof (cases "processLine env headers i l st")
    case (Inl e')
    with Cons.prems have "e = e'" by simp
    with Inl show ?thesis using processLine_Inl by blast
  next
    case (Inr st1)
    with Cons.prems have "processLines env headers (Suc i) ls st1 = (Some e, st')" by simp
    then show ?thesis by (rule Cons.IH)
  qed
qed

lemma processLines_stops:
  assumes "l \<in> set ls" and "\<And>i st. \<exists>e. processLine env headers i l st = Inl e"
  shows "fst (processLines env headers i ls st) \<noteq> None"
  using assms(1)
proof (induction ls arbitrary: i st)
  case Nil
  then show ?case by simp
next
  case (Cons x xs)
  show ?case
  proof (cases "processLine env headers i x st")
    case (Inl e)
    then show ?thesis by simp
  next
    case (Inr st1)
    with assms(2) [of i st] have "x \<noteq> l" by auto
    with Cons.prems have "l \<in> set xs" by simp
    then have "fst (processLines env headers (Suc i) xs st1) \<noteq> None" by (rule Cons.IH)
    with Inr show ?thesis by simp
  qed
qed

lemma processLines_counts:
  "processLines env headers i ls (recs, u) = (None, (recs', u')) \<Longrightarrow>
     processedRows u' + skippedRows u' = processedRows u + skippedRows u + length ls \<and>
     length recs' + processedRows u = length recs + processedRows u'"
proof (induction ls arbitrary: i recs u)
  case Nil
  then show ?case by simp
next
  case (Cons l ls)
  from Cons.prems obtain recs1 u1 where
    step: "processLine env headers i l (recs, u) = Inr (recs1, u1)" and
    rest: "processLines env headers (Suc i) ls (recs1, u1) = (None, (recs', u'))"
    by (cases "processLine env headers i l (recs, u)") auto
  from processLine_counts [OF step] have
    "processedRows u1 + skippedRows u1 = processedRows u + skippedRows u + 1 \<and>
     length recs1 + processedRows u = length recs + processedRows u1"
    by auto
  with Cons.IH [OF rest] show ?case by simp
qed

lemma processLines_snoc_empty:
  "processLines env headers i ls st = (None, (recs', u')) \<Longrightarrow>
     processLines env headers i (ls @ [[]]) st =
       (None, (recs', u'\<lparr>skippedRows := skippedRows u' + 1\<rparr>))"
proof (induction ls arbitrary: i st)
  case Nil
  then show ?case by (cases st) (simp add: processLine_blank trim_Nil)
next
  case (Cons l ls)
  then show ?case by (cases "processLine env headers i l st") auto
qed

text \<open>
  Every record that a run adds carries the id that \<^verbatim>\<open>generateId\<close> computes from the
  store as it was when the run began.
\<close>

lemma processLines_ids:
  "processLines env headers i ls (recs, u) = (x, (recs', u')) \<Longrightarrow> r \<in> set recs' \<Longrightarrow>
     r \<in> set recs \<or> record_id r = generateId (getAllRecords env)"
proof (induction ls arbitrary: i recs u)
  case Nil
  then show ?case by simp
next
  case (Cons l ls)
  show ?case
  proof (cases "processLine env headers i l (recs, u)")
    case (Inl e)
    with Cons.prems show ?thesis by simp
  next
    case (Inr st1)
    obtain recs1 u1 where st1: "st1 = (recs1, u1)" by (cases st1)
    from Inr st1 Cons.prems(1)
    have "processLines env headers (Suc i) ls (recs1, u1) = (x, (recs', u'))" by simp
    from Cons.IH [OF this Cons.prems(2)]
    have "r \<in> set recs1 \<or> record_id r = generateId (getAllRecords env)" .
    moreover from Inr st1 have "recs1 = recs \<or>
        (\<exists>r'. recs1 = recs @ [r'] \<and> convertToRecord env i (rowOf headers l) = Inr (Some r'))"
      by (auto simp: processLine_def split: if_splits sum.splits option.splits)
    ultimately show ?thesis
      using convertToRecord_fields(1) by auto
  qed
qed

lemma processCSV_ids:
  assumes "processCSV env u csv = (u', Some newRecords)" and "r \<in> set newRecords"
  shows "record_id r = generateId (getAllRecords env)"
proof -
  let ?u0 = "u\<lparr>uploadStatus := status_processing, processedRows := 0, skippedRows := 0\<rparr>"
  obtain line0 rest where lines: "split (CHR 0x0A) csv = line0 # rest"
    using split_not_Nil [of "CHR 0x0A" csv] by (cases "split (CHR 0x0A) csv") auto
  obtain x recs u1 where run: "processLines env (headersOf line0) 1 rest ([], ?u0) = (x, (recs, u1))"
    by (cases "processLines env (headersOf line0) 1 rest ([], ?u0)") auto
  from assms(1) lines run have "recs = newRecords"
    by (auto simp: processCSV_def Let_def split: if_splits option.splits)
  with processLines_ids [OF run] assms(2) show ?thesis by auto
qed

section \<open>The claims\<close>

subsection \<open>Identifiers\<close>

text \<open>
  Claim C1 asks that the ids of the records produced by one run, together with the ids of
  the known records, are pairwise distinct, and that the numeric suffixes of the new ids
  increase strictly in the order of generation. \<^verbatim>\<open>generateId\<close> computes every id from
  \<^verbatim>\<open>getAllRecords()\<close> alone, and the records of the run are only pushed to the local
  \<^verbatim>\<open>newRecords\<close>: with an empty store, the file with the two rows \<^verbatim>\<open>Acme\<close> and
  \<^verbatim>\<open>Bolt\<close> gives both records the id \<^verbatim>\<open>CORP-0001\<close>. (In general, by
  \<open>processCSV_ids\<close>, all the records of a run carry one and the same id.)
\<close>

theorem import_run_repeats_id:
  "map_option (map record_id)
     (snd (processCSV (sampleEnvironment []) initialUploader
        ''company_name\<newline>Acme\<newline>Bolt'')) = Some [''CORP-0001'', ''CORP-0001'']"
  by code_simp

text \<open>
  Claim C2, as stated, speaks of the maximum suffix among the known records. The code reads
  the last record of the store, not the one with the greatest suffix: when the store holds
  \<^verbatim>\<open>CORP-0007\<close> followed by \<^verbatim>\<open>CORP-0003\<close>, the maximum suffix is 7 and the next id is
  \<^verbatim>\<open>CORP-0004\<close>.
\<close>

theorem generateId_reads_last_not_max:
  "generateId [knownRecord ''CORP-0007'', knownRecord ''CORP-0003''] = ''CORP-0004'' \<and>
   generateId [knownRecord ''CORP-0007'', knownRecord ''CORP-0003''] \<noteq> ''CORP-0008''"
  by code_simp

text \<open>
  Claim C2, amended: for every store whose last record has an id with numeric suffix 7
  (for instance \<^verbatim>\<open>CORP-0007\<close>), the next generated id is \<^verbatim>\<open>CORP-0008\<close>; for the
  empty store the first generated id is \<^verbatim>\<open>CORP-0001\<close>.
\<close>

theorem generateId_next:
  "(records \<noteq> [] \<and> lastNumberOf (record_id (last records)) = Some 7
      \<longrightarrow> generateId records = ''CORP-0008'') \<and>
   generateId [] = ''CORP-0001''"
proof
  show "records \<noteq> [] \<and> lastNumberOf (record_id (last records)) = Some 7
      \<longrightarrow> generateId records = ''CORP-0008''"
  proof
    assume a: "records \<noteq> [] \<and> lastNumberOf (record_id (last records)) = Some 7"
    then have "record_id (last records) \<noteq> []" using lastNumberOf_Nil by auto
    with a show "generateId records = ''CORP-0008''"
      by (simp add: generateId_def pad_eight)
  qed
  show "generateId [] = ''CORP-0001''" by code_simp
qed

theorem generateId_next_witness:
  "[knownRecord ''CORP-0003'', knownRecord ''CORP-0007''] \<noteq> [] \<and>
   lastNumberOf (record_id (last [knownRecord ''CORP-0003'', knownRecord ''CORP-0007''])) = Some 7 \<and>
   generateId [knownRecord ''CORP-0003'', knownRecord ''CORP-0007''] = ''CORP-0008''"
proof -
  have h: "[knownRecord ''CORP-0003'', knownRecord ''CORP-0007''] \<noteq> [] \<and>
    lastNumberOf (record_id (last [knownRecord ''CORP-0003'', knownRecord ''CORP-0007''])) = Some 7"
    by code_simp
  with generateId_next [of "[knownRecord ''CORP-0003'', knownRecord ''CORP-0007'']"]
  show ?thesis by blast
qed

subsection \<open>Defaults of a converted row\<close>

text \<open>
  Claim C3, as stated, says that a missing or blank \<^verbatim>\<open>description\<close> makes the
  \<^verbatim>\<open>description\<close> of the record equal to its \<^verbatim>\<open>name\<close>. The code gives
  \<^verbatim>\<open>description\<close> the default \<^verbatim>\<open>''\<close>; only \<^verbatim>\<open>details\<close> falls back to the name. The
  file with the single column \<^verbatim>\<open>company_name\<close> and the row \<^verbatim>\<open>Acme\<close> gives the name
  \<^verbatim>\<open>Acme\<close> and the empty description.
\<close>

theorem description_defaults_to_empty:
  "map_option (map name)
     (snd (processCSV (sampleEnvironment []) initialUploader ''company_name\<newline>Acme'')) = Some [''Acme''] \<and>
   map_option (map description)
     (snd (processCSV (sampleEnvironment []) initialUploader ''company_name\<newline>Acme'')) = Some [[]]"
  by code_simp

text \<open>
  Claim C3, amended: for every converted row whose \<^verbatim>\<open>description\<close> field is absent or
  blank, the \<^verbatim>\<open>details\<close> of the record equal its \<^verbatim>\<open>name\<close>, which is the trimmed
  \<^verbatim>\<open>company_name\<close> value, and its \<^verbatim>\<open>description\<close> is the empty string.
\<close>

theorem description_absent_or_blank:
  assumes "convertToRecord env i data = Inr (Some r)"
    and "\<forall>d. field data ''description'' = Some d \<longrightarrow> trim d = []"
  shows "details r = name r \<and> description r = [] \<and>
         (\<exists>v. field data ''company_name'' = Some v \<and> name r = trim v)"
proof -
  from assms(2) have d: "trimmedOr data ''description'' x = x" for x
    by (auto simp: trimmedOr_def split: option.splits)
  from convertToRecord_fields(9) [OF assms(1)]
  have "\<exists>v. field data ''company_name'' = Some v \<and> trimmedOr data ''company_name'' [] = trim v"
    by (auto simp: trimmedOr_def split: option.splits if_splits)
  then show ?thesis
    using convertToRecord_fields(2,4,5) [OF assms(1)] by (simp add: d)
qed

theorem description_absent_or_blank_witness:
  "\<exists>r. convertToRecord (sampleEnvironment []) 1 [(''company_name'', '' Acme''), (''description'', '' '')]
          = Inr (Some r) \<and>
       (\<forall>d. field [(''company_name'', '' Acme''), (''description'', '' '')] ''description'' = Some d
             \<longrightarrow> trim d = []) \<and>
       details r = ''Acme'' \<and> name r = ''Acme'' \<and> description r = []"
proof -
  let ?data = "[(''company_name'', '' Acme''), (''description'', '' '')]"
  have "trimmedOr ?data ''company_name'' [] \<noteq> []" by code_simp
  moreover have "parseImages (sampleEnvironment []) ?data = Inr (JArray [])" by code_simp
  ultimately obtain r where r: "convertToRecord (sampleEnvironment []) 1 ?data = Inr (Some r)"
    using convertToRecord_record by blast
  have f: "field ?data ''description'' = Some '' ''" by code_simp
  have t: "trim '' '' = []" by code_simp
  have h: "\<forall>d. field ?data ''description'' = Some d \<longrightarrow> trim d = []"
    by (simp add: f t)
  have n: "field ?data ''company_name'' = Some '' Acme''" by code_simp
  have tn: "trim '' Acme'' = ''Acme''" by code_simp
  from description_absent_or_blank [OF r h] n tn
  have "details r = ''Acme'' \<and> name r = ''Acme'' \<and> description r = []" by auto
  with r h show ?thesis by blast
qed




subsection \<open>The header\<close>

text \<open>
  Claim C4: when the first line, lower-cased, split on commas and trimmed, has no
  \<^verbatim>\<open>company_name\<close>, the run ends in the error state with the message of the format
  error, both counters are zero, and no record list reaches \<^verbatim>\<open>console.log\<close>.
\<close>

theorem missing_company_name_column:
  assumes "split (CHR 0x0A) text = line0 # rest"
    and "''company_name'' \<notin> set (headersOf line0)"
  shows "processCSV env u text =
           (\<lparr>uploadStatus = status_error, errorMessage = formatErrorMessage,
             processedRows = 0, skippedRows = 0\<rparr>, None)"
  using assms by (cases u) (simp add: processCSV_def catch_def)

theorem missing_company_name_column_witness:
  "split (CHR 0x0A) ''Company,City\<newline>Acme,Paris'' = ''Company,City'' # [''Acme,Paris''] \<and>
   ''company_name'' \<notin> set (headersOf ''Company,City'') \<and>
   processCSV (sampleEnvironment []) initialUploader ''Company,City\<newline>Acme,Paris'' =
     (\<lparr>uploadStatus = status_error, errorMessage = formatErrorMessage,
       processedRows = 0, skippedRows = 0\<rparr>, None)"
proof -
  have a: "split (CHR 0x0A) ''Company,City\<newline>Acme,Paris'' = ''Company,City'' # [''Acme,Paris'']"
    by code_simp
  have b: "''company_name'' \<notin> set (headersOf ''Company,City'')"
    by code_simp
  from a b missing_company_name_column [OF a b] show ?thesis by blast
qed

text \<open>
  Claim C9 asks that every recognised column, \<^verbatim>\<open>zipCode\<close> and \<^verbatim>\<open>taxId\<close> among them,
  is found whatever the letter case of its header, and that the field of the record is the
  trimmed cell. The headers are lower-cased before the row object is filled, and
  \<^verbatim>\<open>convertToRecord\<close> reads the keys \<^verbatim>\<open>zipCode\<close> and \<^verbatim>\<open>taxId\<close> as written, with
  their capital letters: these two keys are never present. In the file below the column
  \<^verbatim>\<open>Address\<close> is found and the columns \<^verbatim>\<open>zipCode\<close> and \<^verbatim>\<open>taxId\<close> are lost.
\<close>

theorem camel_case_columns_are_lost:
  "map_option (map address)
     (snd (processCSV (sampleEnvironment []) initialUploader
        ''company_name,Address,zipCode,taxId\<newline>Acme,1 Main St,12345,T-1'')) = Some [''1 Main St''] \<and>
   map_option (map zipCode)
     (snd (processCSV (sampleEnvironment []) initialUploader
        ''company_name,Address,zipCode,taxId\<newline>Acme,1 Main St,12345,T-1'')) = Some [[]] \<and>
   map_option (map taxId)
     (snd (processCSV (sampleEnvironment []) initialUploader
        ''company_name,Address,zipCode,taxId\<newline>Acme,1 Main St,12345,T-1'')) = Some [[]]"
  by code_simp

subsection \<open>Skipped and processed rows\<close>

text \<open>
  Claim C5: a line after the header that is empty or white space only, a row whose every
  field is blank, and a row whose \<^verbatim>\<open>company_name\<close> field is blank (or missing) each
  produce no record and add exactly one to the skipped counter.
\<close>

theorem skipped_row:
  assumes "trim line = [] \<or> isRowEmpty (rowOf headers line) \<or>
           (\<forall>v. field (rowOf headers line) ''company_name'' = Some v \<longrightarrow> trim v = [])"
  shows "processLine env headers i line (newRecords, u) =
           Inr (newRecords, u\<lparr>skippedRows := skippedRows u + 1\<rparr>)"
proof (cases "trim line = []")
  case True
  then show ?thesis by (rule processLine_blank)
next
  case False
  with assms consider "isRowEmpty (rowOf headers line)"
    | "\<forall>v. field (rowOf headers line) ''company_name'' = Some v \<longrightarrow> trim v = []"
    by blast
  then have "trimmedOr (rowOf headers line) ''company_name'' [] = []"
  proof cases
    case 1
    then show ?thesis by (rule isRowEmpty_no_name)
  next
    case 2
    then show ?thesis by (simp add: trimmedOr_eq_Nil_iff split: option.splits)
  qed
  then have "convertToRecord env i (rowOf headers line) = Inr None"
    by (simp add: convertToRecord_null)
  with False show ?thesis by (simp add: processLine_def)
qed

theorem skipped_row_witness:
  "trim [CHR 0xA0, CHR 0x09] = [] \<and>
   isRowEmpty (rowOf [''company_name'', ''description''] '',,'') \<and>
   field (rowOf [''company_name'', ''description''] '' ,Widgets'') ''company_name'' = Some [] \<and>
   processLine (sampleEnvironment []) [''company_name'', ''description''] 1 [CHR 0xA0, CHR 0x09] ([], initialUploader) =
     Inr ([], initialUploader\<lparr>skippedRows := 1\<rparr>) \<and>
   processLine (sampleEnvironment []) [''company_name'', ''description''] 1 '',,'' ([], initialUploader) =
     Inr ([], initialUploader\<lparr>skippedRows := 1\<rparr>) \<and>
   processLine (sampleEnvironment []) [''company_name'', ''description''] 1 '' ,Widgets'' ([], initialUploader) =
     Inr ([], initialUploader\<lparr>skippedRows := 1\<rparr>)"
proof -
  let ?hs = "[''company_name'', ''description'']"
  have a: "trim [CHR 0xA0, CHR 0x09] = []" by code_simp
  have b: "isRowEmpty (rowOf ?hs '',,'')" by code_simp
  have f: "field (rowOf ?hs '' ,Widgets'') ''company_name'' = Some []" by code_simp
  then have c: "\<forall>v. field (rowOf ?hs '' ,Widgets'') ''company_name'' = Some v \<longrightarrow> trim v = []"
    by (simp add: trim_Nil)
  have z: "skippedRows initialUploader = 0" by (simp add: initialUploader_def)
  from a have "processLine (sampleEnvironment []) ?hs 1 [CHR 0xA0, CHR 0x09] ([], initialUploader) =
     Inr ([], initialUploader\<lparr>skippedRows := 1\<rparr>)"
    using skipped_row [of "[CHR 0xA0, CHR 0x09]" ?hs "sampleEnvironment []" 1 "[]" initialUploader] by (simp add: z)
  moreover from b have "processLine (sampleEnvironment []) ?hs 1 '',,'' ([], initialUploader) =
     Inr ([], initialUploader\<lparr>skippedRows := 1\<rparr>)"
    using skipped_row [of "'',,''" ?hs "sampleEnvironment []" 1 "[]" initialUploader] by (simp add: z)
  moreover from c have "processLine (sampleEnvironment []) ?hs 1 '' ,Widgets'' ([], initialUploader) =
     Inr ([], initialUploader\<lparr>skippedRows := 1\<rparr>)"
    using skipped_row [of "'' ,Widgets''" ?hs "sampleEnvironment []" 1 "[]" initialUploader] by (simp add: z)
  ultimately show ?thesis using a b f by blast
qed

text \<open>
  Claim C6: a row whose \<^verbatim>\<open>company_name\<close> field is not blank, and whose \<^verbatim>\<open>images\<close>
  cell is empty or parses, produces exactly one record, adds exactly one to the processed
  counter and leaves the skipped counter alone; the \<^verbatim>\<open>name\<close> and the \<^verbatim>\<open>subject\<close> of
  the record are the trimmed \<^verbatim>\<open>company_name\<close> value.
\<close>

theorem converted_row:
  assumes "field (rowOf headers line) ''company_name'' = Some v"
    and "trim v \<noteq> []"
    and "\<forall>c. field (rowOf headers line) ''images'' = Some c \<longrightarrow> c = [] \<or> JSON_parse c \<noteq> None"
  shows "\<exists>r. processLine env headers i line (newRecords, u) =
                Inr (newRecords @ [r], u\<lparr>processedRows := processedRows u + 1\<rparr>) \<and>
              name r = trim v \<and> subject r = trim v"
proof -
  let ?data = "rowOf headers line"
  from assms(2) have "v \<noteq> []" by (auto simp: trim_Nil)
  with assms(1) have line: "trim line \<noteq> []" by (rule field_rowOf(3))
  from assms(1,2) have nm: "trimmedOr ?data ''company_name'' [] = trim v"
    by (simp add: trimmedOr_def)
  have "\<exists>j. parseImages env ?data = Inr j"
  proof (cases "field ?data ''images''")
    case None
    then show ?thesis by (simp add: parseImages_def)
  next
    case (Some c)
    show ?thesis
    proof (cases "c = []")
      case True
      with Some show ?thesis by (simp add: parseImages_def)
    next
      case False
      with assms(3) Some obtain j where "JSON_parse c = Some j" by auto
      moreover from Some have "trim c = c" by (rule field_rowOf(2))
      ultimately show ?thesis using Some False by (simp add: parseImages_row)
    qed
  qed
  with nm assms(2) obtain r where r: "convertToRecord env i ?data = Inr (Some r)"
    using convertToRecord_record [of ?data env _ i] by auto
  from convertToRecord_fields(2,3) [OF r] nm have "name r = trim v \<and> subject r = trim v" by simp
  moreover from line r have "processLine env headers i line (newRecords, u) =
      Inr (newRecords @ [r], u\<lparr>processedRows := processedRows u + 1\<rparr>)"
    by (simp add: processLine_def)
  ultimately show ?thesis by blast
qed

theorem converted_row_witness:
  "field (rowOf [''company_name'', ''images''] '' Acme Corp ,[]'') ''company_name'' = Some ''Acme Corp'' \<and>
   trim ''Acme Corp'' \<noteq> [] \<and>
   field (rowOf [''company_name'', ''images''] '' Acme Corp ,[]'') ''images'' = Some ''[]'' \<and>
   JSON_parse ''[]'' \<noteq> None \<and>
   (\<exists>r. processLine (sampleEnvironment []) [''company_name'', ''images''] 1 '' Acme Corp ,[]''
           ([], initialUploader) = Inr ([r], initialUploader\<lparr>processedRows := 1\<rparr>) \<and>
         name r = ''Acme Corp'' \<and> subject r = ''Acme Corp'')"
proof -
  let ?hs = "[''company_name'', ''images'']"
  let ?line = "'' Acme Corp ,[]''"
  have a: "field (rowOf ?hs ?line) ''company_name'' = Some ''Acme Corp''" by code_simp
  have t: "trim ''Acme Corp'' = ''Acme Corp''" by code_simp
  then have b: "trim ''Acme Corp'' \<noteq> []" by simp
  have f: "field (rowOf ?hs ?line) ''images'' = Some ''[]''" by code_simp
  have g: "JSON_parse ''[]'' \<noteq> None" by (simp add: JSON_parse_empty_array)
  from f g have c: "\<forall>c. field (rowOf ?hs ?line) ''images'' = Some c \<longrightarrow> c = [] \<or> JSON_parse c \<noteq> None"
    by simp
  have z: "processedRows initialUploader = 0" by (simp add: initialUploader_def)
  from converted_row [OF a b c, of "sampleEnvironment []" 1 "[]" initialUploader]
  have "\<exists>r. processLine (sampleEnvironment []) ?hs 1 ?line ([], initialUploader) =
            Inr ([r], initialUploader\<lparr>processedRows := 1\<rparr>) \<and>
          name r = ''Acme Corp'' \<and> subject r = ''Acme Corp''"
    by (simp add: z t)
  with a b f g show ?thesis by blast
qed

subsection \<open>Malformed \<^verbatim>\<open>images\<close>\<close>

text \<open>
  Claim C8, as stated, says that any row whose \<^verbatim>\<open>images\<close> cell is not valid JSON makes
  the whole run fail. A row is skipped before its \<^verbatim>\<open>images\<close> cell is parsed when its
  \<^verbatim>\<open>company_name\<close> is blank: the file below has such a row with the cell
  \<^verbatim>\<open>{not json\<close>, and its run succeeds with one skipped row.
\<close>

theorem blank_name_hides_malformed_images:
  "JSON_parse ''{not json'' = None \<and>
   processCSV (sampleEnvironment []) initialUploader ''company_name,images\<newline>,{not json'' =
     (\<lparr>uploadStatus = status_success, errorMessage = [], processedRows = 0, skippedRows = 1\<rparr>,
      Some [])"
  by code_simp

text \<open>
  Claim C8, amended: for every file that has, after the header, a row whose
  \<^verbatim>\<open>company_name\<close> field is not blank and whose \<^verbatim>\<open>images\<close> cell is not empty and is
  not valid JSON, the run as a whole fails: it ends in the error state with the message of
  a \<^verbatim>\<open>SyntaxError\<close> of \<^verbatim>\<open>JSON.parse\<close>, and no record list reaches \<^verbatim>\<open>console.log\<close>.
\<close>

theorem malformed_images_aborts:
  assumes "split (CHR 0x0A) text = line0 # rest"
    and "line \<in> set rest"
    and "field (rowOf (headersOf line0) line) ''company_name'' = Some v"
    and "trim v \<noteq> []"
    and "field (rowOf (headersOf line0) line) ''images'' = Some c"
    and "c \<noteq> []"
    and "JSON_parse c = None"
  shows "\<exists>u' src. processCSV env u text = (u', None) \<and>
           uploadStatus u' = status_error \<and>
           errorMessage u' = syntaxErrorMessage env src \<and> JSON_parse src = None"
proof -
  let ?hs = "headersOf line0"
  let ?u0 = "u\<lparr>uploadStatus := status_processing, processedRows := 0, skippedRows := 0\<rparr>"
  from assms(3) have hdr: "''company_name'' \<in> set ?hs" by (rule field_rowOf(1))
  from assms(4) have "v \<noteq> []" by (auto simp: trim_Nil)
  with assms(3) have line: "trim line \<noteq> []" by (rule field_rowOf(3))
  from assms(3,4) have nm: "trimmedOr (rowOf ?hs line) ''company_name'' [] \<noteq> []"
    by (simp add: trimmedOr_def)
  from assms(5) have "trim c = c" by (rule field_rowOf(2))
  with assms(5,6,7) have "parseImages env (rowOf ?hs line) = Inl (SyntaxError (syntaxErrorMessage env c))"
    by (simp add: parseImages_row)
  with nm have "convertToRecord env i (rowOf ?hs line) = Inl (SyntaxError (syntaxErrorMessage env c))" for i
    by (simp add: convertToRecord_throws)
  with line have "\<exists>e. processLine env ?hs i line st = Inl e" for i st
    by (cases st) (simp add: processLine_def)
  with assms(2) have "fst (processLines env ?hs 1 rest ([], ?u0)) \<noteq> None"
    by (rule processLines_stops)
  then obtain e recs u1 where run: "processLines env ?hs 1 rest ([], ?u0) = (Some e, (recs, u1))"
    by (cases "processLines env ?hs 1 rest ([], ?u0)") auto
  from processLines_exn [OF run] obtain src where
    e: "e = SyntaxError (syntaxErrorMessage env src)" and src: "JSON_parse src = None"
    by blast
  from assms(1) hdr run have "processCSV env u text = (catch e u1, None)"
    by (simp add: processCSV_def Let_def)
  with e src show ?thesis by (auto simp: catch_def)
qed

theorem malformed_images_aborts_witness:
  "split (CHR 0x0A) ''company_name,images\<newline>Acme,[]\<newline>Bolt,{not json'' =
     ''company_name,images'' # [''Acme,[]'', ''Bolt,{not json''] \<and>
   ''Bolt,{not json'' \<in> set [''Acme,[]'', ''Bolt,{not json''] \<and>
   field (rowOf (headersOf ''company_name,images'') ''Bolt,{not json'') ''company_name'' = Some ''Bolt'' \<and>
   trim ''Bolt'' \<noteq> [] \<and>
   field (rowOf (headersOf ''company_name,images'') ''Bolt,{not json'') ''images'' = Some ''{not json'' \<and>
   ''{not json'' \<noteq> [] \<and>
   JSON_parse ''{not json'' = None \<and>
   (\<exists>u' src. processCSV (sampleEnvironment []) initialUploader
                ''company_name,images\<newline>Acme,[]\<newline>Bolt,{not json'' = (u', None) \<and>
              uploadStatus u' = status_error \<and>
              errorMessage u' = syntaxErrorMessage (sampleEnvironment []) src \<and>
              JSON_parse src = None)"
proof -
  have a: "split (CHR 0x0A) ''company_name,images\<newline>Acme,[]\<newline>Bolt,{not json'' =
     ''company_name,images'' # [''Acme,[]'', ''Bolt,{not json'']" by code_simp
  have b: "''Bolt,{not json'' \<in> set [''Acme,[]'', ''Bolt,{not json'']" by simp
  have c: "field (rowOf (headersOf ''company_name,images'') ''Bolt,{not json'') ''company_name'' = Some ''Bolt''"
    by code_simp
  have d: "trim ''Bolt'' \<noteq> []" by code_simp
  have e: "field (rowOf (headersOf ''company_name,images'') ''Bolt,{not json'') ''images'' = Some ''{not json''"
    by code_simp
  have f: "''{not json'' \<noteq> []" by simp
  have g: "JSON_parse ''{not json'' = None" by code_simp
  from a b c d e f g
    malformed_images_aborts [OF a b c d e f g, of "sampleEnvironment []" initialUploader]
  show ?thesis by blast
qed

subsection \<open>The counters\<close>

text \<open>
  Claim C10: in a run that completes without error every line after the header adds one to
  exactly one of the two counters (\<open>processLine_counts\<close>), so the processed and the
  skipped counter add up to the number of lines after the header, and the processed counter
  is the number of records; the same file with one more line feed at the end completes with
  the same records and one more skipped row.
\<close>

theorem counters_cover_lines:
  assumes "processCSV env u text = (u', Some newRecords)"
  shows "processedRows u' + skippedRows u' = length (split (CHR 0x0A) text) - 1 \<and>
         processedRows u' = length newRecords \<and>
         processCSV env u (text @ [CHR 0x0A]) =
           (u'\<lparr>skippedRows := skippedRows u' + 1\<rparr>, Some newRecords)"
proof -
  let ?u0 = "u\<lparr>uploadStatus := status_processing, processedRows := 0, skippedRows := 0\<rparr>"
  obtain line0 rest where lines: "split (CHR 0x0A) text = line0 # rest"
    using split_not_Nil [of "CHR 0x0A" "text"] by (cases "split (CHR 0x0A) text") auto
  from assms lines have hdr: "''company_name'' \<in> set (headersOf line0)"
    by (auto simp: processCSV_def Let_def split: if_splits)
  obtain x recs u1 where run: "processLines env (headersOf line0) 1 rest ([], ?u0) = (x, (recs, u1))"
    by (cases "processLines env (headersOf line0) 1 rest ([], ?u0)") auto
  from assms lines hdr run have x: "x = None" and r: "recs = newRecords"
    and u': "u' = u1\<lparr>uploadStatus := status_success\<rparr>"
    by (auto simp: processCSV_def Let_def split: option.splits)
  from run x have run': "processLines env (headersOf line0) 1 rest ([], ?u0) = (None, (recs, u1))"
    by simp
  from processLines_counts [OF run']
  have counts: "processedRows u1 + skippedRows u1 = length rest" "length recs = processedRows u1"
    by simp_all
  have "split (CHR 0x0A) (text @ [CHR 0x0A]) = line0 # (rest @ [[]])"
    by (simp add: split_snoc lines)
  moreover have "processLines env (headersOf line0) 1 (rest @ [[]]) ([], ?u0) =
      (None, (recs, u1\<lparr>skippedRows := skippedRows u1 + 1\<rparr>))"
    using run' by (rule processLines_snoc_empty)
  ultimately have "processCSV env u (text @ [CHR 0x0A]) =
      (u1\<lparr>skippedRows := skippedRows u1 + 1, uploadStatus := status_success\<rparr>, Some recs)"
    using hdr by (simp add: processCSV_def Let_def)
  with counts lines r u' show ?thesis by simp
qed

theorem counters_cover_lines_witness:
  "\<exists>u' newRecords.
     processCSV (sampleEnvironment []) initialUploader
       ''company_name,description\<newline>Acme,Widgets\<newline>,,'' = (u', Some newRecords) \<and>
     processedRows u' + skippedRows u' = 2 \<and>
     processedRows u' = length newRecords \<and>
     processCSV (sampleEnvironment []) initialUploader
       (''company_name,description\<newline>Acme,Widgets\<newline>,,'' @ [CHR 0x0A]) =
         (u'\<lparr>skippedRows := skippedRows u' + 1\<rparr>, Some newRecords)"
proof -
  let ?text = "''company_name,description\<newline>Acme,Widgets\<newline>,,''"
  have "snd (processCSV (sampleEnvironment []) initialUploader ?text) \<noteq> None" by code_simp
  then obtain u' newRecords where
    run: "processCSV (sampleEnvironment []) initialUploader ?text = (u', Some newRecords)"
    by (cases "processCSV (sampleEnvironment []) initialUploader ?text") auto
  have n: "length (split (CHR 0x0A) ?text) - 1 = 2" by code_simp
  from counters_cover_lines [OF run] run n show ?thesis by auto
qed

end
